theory Spec2Isabelle
  imports Main
begin

section \<open>JavaScript values used by the message pipeline\<close>

text \<open>
  A JavaScript string is modelled as a list of code units, \<^typ>\<open>string\<close>. The model
  covers the code units 0 to 255; among them the characters that
  \<^verbatim>\<open>String.prototype.trim\<close> removes (WhiteSpace and LineTerminator) are TAB, LF, VT,
  FF, CR, SP and NBSP.
\<close>

definition isWhiteSpace :: "char \<Rightarrow> bool" where
  "isWhiteSpace c =
     (c \<in> set [CHR 0x09, CHR 0x0A, CHR 0x0B, CHR 0x0C, CHR 0x0D, CHR 0x20, CHR 0xA0])"

text \<open>\<^verbatim>\<open>s.trim()\<close>: leading and trailing white space removed.\<close>

definition trim :: "string \<Rightarrow> string" where
  "trim s = rev (dropWhile isWhiteSpace (rev (dropWhile isWhiteSpace s)))"

text \<open>\<^verbatim>\<open>s.startsWith(p)\<close>.\<close>

definition startsWith :: "string \<Rightarrow> string \<Rightarrow> bool" where
  "startsWith s p = (take (length p) s = p)"

text \<open>
  \<^verbatim>\<open>s.split("\n")\<close>: the pieces between line feeds; the empty string gives one
  empty piece.
\<close>

fun split_nl :: "string \<Rightarrow> string list" where
  "split_nl [] = [[]]"
| "split_nl (c # cs) =
     (if c = CHR 0x0A then [] # split_nl cs
      else (case split_nl cs of [] \<Rightarrow> [[c]] | l # ls \<Rightarrow> (c # l) # ls))"

text \<open>\<^verbatim>\<open>lines.join("\n")\<close>: the empty array gives the empty string.\<close>

fun join_nl :: "string list \<Rightarrow> string" where
  "join_nl [] = []"
| "join_nl [l] = l"
| "join_nl (l # l' # ls) = l @ CHR 0x0A # join_nl (l' # ls)"

text \<open>
  A JavaScript number as the pipeline meets it: an integer-valued double
  (\<^verbatim>\<open>Date.now()\<close>, a time stamp), NaN or an infinity. \<open>js_lt\<close> is the operator
  \<^verbatim>\<open><\<close> on numbers: a comparison with NaN is false.
\<close>

datatype jsnum = NaN | Num int | PosInfinity | NegInfinity

fun js_lt :: "jsnum \<Rightarrow> jsnum \<Rightarrow> bool" where
  "js_lt (Num a) (Num b) = (a < b)"
| "js_lt (Num a) PosInfinity = True"
| "js_lt NegInfinity (Num b) = True"
| "js_lt NegInfinity PosInfinity = True"
| "js_lt _ _ = False"

text \<open>
  The Number nearest to an integer. Below \<open>2\<^sup>5\<^sup>3\<close> every integer is a double; above,
  a double keeps 53 bits and the rest is rounded to nearest, ties to the even
  significand; a magnitude that rounds to \<open>2\<^sup>1\<^sup>0\<^sup>2\<^sup>4\<close> or more is an infinity.
  \<open>bitLength\<close> and \<open>decimalLength\<close> count the binary and the decimal digits.
\<close>

function bitLength :: "int \<Rightarrow> nat" where
  "bitLength m = (if m \<le> 0 then 0 else Suc (bitLength (m div 2)))"
  by pat_completeness auto
termination
  by (relation "measure nat") auto

function decimalLength :: "int \<Rightarrow> nat" where
  "decimalLength m = (if m < 10 then 1 else Suc (decimalLength (m div 10)))"
  by pat_completeness auto
termination
  by (relation "measure nat") auto

definition roundToDouble :: "int \<Rightarrow> int" where
  "roundToDouble m =
     (if m < 2 ^ 53 then m
      else
        let e = bitLength m - 53; q = m div 2 ^ e; r = m mod 2 ^ e in
        if 2 ^ e < 2 * r \<or> (2 * r = 2 ^ e \<and> odd q) then (q + 1) * 2 ^ e else q * 2 ^ e)"

definition toNumber :: "int \<Rightarrow> jsnum" where
  "toNumber i =
     (let x = roundToDouble \<bar>i\<bar> in
      if 2 ^ 1024 \<le> x then (if i < 0 then NegInfinity else PosInfinity)
      else Num (if i < 0 then - x else x))"

text \<open>
  The field \<^verbatim>\<open>origin_server_ts\<close> of an event: absent, a number given by the
  integer numeral of the JSON text (\<open>TsNumber n\<close> is the Number nearest to \<open>n\<close>), or a
  string. \<^verbatim>\<open>parseInt\<close> converts its argument to a string and reads an integer
  prefix: white space is skipped, then an optional sign, then an optional \<^verbatim>\<open>0x\<close>
  (radix 16, else radix 10), then the longest run of digits of the radix; no digit gives
  NaN, and the integer read is rounded to a Number.

  A number of magnitude below \<open>10\<^sup>2\<^sup>1\<close> prints as a decimal numeral that reads back as
  the same number. From \<open>10\<^sup>2\<^sup>1\<close> on it prints in exponent form, the shortest digits
  that round to it, and \<^verbatim>\<open>parseInt\<close> reads the sign and the one digit before the
  point or the exponent: \<open>exponentLead x\<close> is that digit, the leading digit of \<open>x\<close>
  unless the next one-digit decimal rounds to \<open>x\<close>. An infinity prints as a word without
  digits, and so does \<^verbatim>\<open>undefined\<close>.
\<close>

datatype js_ts = TsUndefined | TsNumber int | TsString string

definition exponentLead :: "int \<Rightarrow> int" where
  "exponentLead x =
     (let p = decimalLength x - 1; d = x div 10 ^ p in
      if roundToDouble ((d + 1) * 10 ^ p) = x then (if d = 9 then 1 else d + 1) else d)"

definition parseIntNumber :: "int \<Rightarrow> jsnum" where
  "parseIntNumber n =
     (case toNumber n of
        Num x \<Rightarrow>
          if \<bar>x\<bar> < 10 ^ 21 then Num x
          else Num ((if x < 0 then - 1 else 1) * exponentLead \<bar>x\<bar>)
      | _ \<Rightarrow> NaN)"

definition digitValue :: "char \<Rightarrow> nat option" where
  "digitValue c =
     (let n = (of_char c :: nat) in
      if 48 \<le> n \<and> n \<le> 57 then Some (n - 48)
      else if 97 \<le> n \<and> n \<le> 122 then Some (n - 87)
      else if 65 \<le> n \<and> n \<le> 90 then Some (n - 55)
      else None)"

definition isDigitIn :: "nat \<Rightarrow> char \<Rightarrow> bool" where
  "isDigitIn radix c = (case digitValue c of Some d \<Rightarrow> d < radix | None \<Rightarrow> False)"

definition digitsValue :: "nat \<Rightarrow> string \<Rightarrow> int" where
  "digitsValue radix ds =
     foldl (\<lambda>acc c. acc * int radix + (case digitValue c of Some d \<Rightarrow> int d | None \<Rightarrow> 0))
       0 ds"

definition parseIntString :: "string \<Rightarrow> jsnum" where
  "parseIntString s =
     (let s1 = dropWhile isWhiteSpace s;
          neg = startsWith s1 ''-'';
          s2 = (if startsWith s1 ''-'' \<or> startsWith s1 ''+'' then drop 1 s1 else s1);
          hex = (startsWith s2 ''0x'' \<or> startsWith s2 ''0X'');
          radix = (if hex then 16 else 10);
          s3 = (if hex then drop 2 s2 else s2);
          ds = takeWhile (isDigitIn radix) s3
      in if ds = [] then NaN
         else toNumber ((if neg then - 1 else 1) * digitsValue radix ds))"

fun parseInt :: "js_ts \<Rightarrow> jsnum" where
  "parseInt TsUndefined = parseIntString ''undefined''"
| "parseInt (TsNumber n) = parseIntNumber n"
| "parseInt (TsString s) = parseIntString s"

section \<open>Events and messages\<close>

text \<open>
  \<^verbatim>\<open>content["m.relates_to"]\<close>: \<^verbatim>\<open>undefined\<close>, \<^verbatim>\<open>null\<close> (whose type is
  not \<^verbatim>\<open>"undefined"\<close> and whose property access throws a TypeError), or a value whose
  property \<^verbatim>\<open>"m.in_reply_to"\<close> is defined (\<open>True\<close>) or not.
\<close>

datatype RelatesTo = RelUndefined | RelNull | RelValue bool

text \<open>
  The content of an event: \<^verbatim>\<open>msgtype\<close> and \<^verbatim>\<open>body\<close> are strings when present.
\<close>

record Content =
  msgtype :: "string option"
  body :: "string option"
  relates_to :: RelatesTo

record Event =
  content :: "Content option"
  origin_server_ts :: js_ts
  sender :: string

text \<open>The interface \<^verbatim>\<open>Message\<close> of \<^verbatim>\<open>utils\<close>, as line 124 builds it.\<close>

record Message =
  body :: string
  sender :: string
  room :: string
  event :: Event

section \<open>Stripping the quoted answer of a reply (lines 100 to 111)\<close>

text \<open>
  The loop of lines 103 to 108: while there is a first line and it starts with
  \<^verbatim>\<open>"> "\<close> or trims to the empty string, shift it off.
\<close>

fun shiftQuoted :: "string list \<Rightarrow> string list" where
  "shiftQuoted [] = []"
| "shiftQuoted (l # ls) =
     (if startsWith l ''> '' \<or> \<not> (0 < length (trim l)) then shiftQuoted ls else l # ls)"

text \<open>Lines 102 to 109: split, shift, join.\<close>

definition stripReply :: "string \<Rightarrow> string" where
  "stripReply b = join_nl (shiftQuoted (split_nl b))"

text \<open>
  Lines 100 to 111: the body after the reply step. A \<^verbatim>\<open>null\<close> relation makes the
  inner property access throw.
\<close>

fun replyBody :: "RelatesTo \<Rightarrow> string \<Rightarrow> string + string" where
  "replyBody RelUndefined b = Inr b"
| "replyBody RelNull b = Inl ''TypeError''"
| "replyBody (RelValue marked) b = Inr (if marked then stripReply b else b)"

text \<open>
  The same step in the words of the specification: a line is quoted when it starts with
  the quote marker and blank when it holds white space only; the leading run of such
  lines goes, the rest is joined by line feeds.
\<close>

definition quotedOrBlank :: "string \<Rightarrow> bool" where
  "quotedOrBlank l = (startsWith l ''> '' \<or> list_all isWhiteSpace l)"

definition stripReply_spec :: "string \<Rightarrow> string" where
  "stripReply_spec b = join_nl (dropWhile quotedOrBlank (split_nl b))"

section \<open>Collaborators, promises and the record of calls\<close>

text \<open>
  What an \<^verbatim>\<open>await\<close> can meet: the promise resolves with a value, it rejects (a
  synchronous throw of the awaited call counts as a rejection), or it never settles.
\<close>

datatype 'a await = Resolved 'a | Rejected string | Pending

text \<open>
  The shared configuration \<^verbatim>\<open>config.extra\<close> of \<^verbatim>\<open>loadConfig\<close>; each handler
  receives a copy (\<^verbatim>\<open>Object.assign({}, config.extra)\<close>, line 132).
\<close>

record Extra =
  handlerNames :: "string list"
  helpMessages :: "(string \<times> string) list"
  owner :: string
  logLevel :: string

text \<open>
  The calls the pipeline makes to its collaborators, in the order it makes them:
  \<^verbatim>\<open>client.getUserId()\<close>, \<^verbatim>\<open>settings.isModuleEnabled(room, moduleName)\<close>,
  \<^verbatim>\<open>handler(client, msg, extra)\<close> of the named module, and
  \<^verbatim>\<open>console.error("Handler error: ", err)\<close>.
\<close>

datatype action =
    GetUserId
  | IsModuleEnabled string string
  | HandlerCall string Message Extra
  | ConsoleError string

text \<open>
  The collaborators act on a world \<open>'w\<close> (the client, the settings store and whatever
  else the modules touch): each call returns how its promise settles and the world it
  leaves, so that a handler can change what a later settings lookup answers.
\<close>

record 'w Env =
  getUserId :: "'w \<Rightarrow> string await \<times> 'w"
  isModuleEnabled :: "string \<Rightarrow> string \<Rightarrow> 'w \<Rightarrow> bool await \<times> 'w"

text \<open>The interface \<^verbatim>\<open>Handler\<close> (lines 24 to 27) and the configuration.\<close>

record 'w Handler =
  moduleName :: string
  handler :: "Message \<Rightarrow> Extra \<Rightarrow> 'w \<Rightarrow> unit await \<times> 'w"

record 'w Config =
  handlers :: "'w Handler list"
  extra :: Extra

text \<open>
  A run of an asynchronous function: the calls it made, how its promise settles, and the
  world afterwards. \<open>after t r\<close> puts the calls \<open>t\<close> before those of the run \<open>r\<close>.
\<close>

type_synonym ('a, 'w) run = "action list \<times> 'a await \<times> 'w"

definition after :: "action list \<Rightarrow> ('a, 'w) run \<Rightarrow> ('a, 'w) run" where
  "after t r = (case r of (t', res, w) \<Rightarrow> (t @ t', res, w))"

section \<open>The event filter of \<^verbatim>\<open>handleCommand\<close> (lines 70 to 129)\<close>

text \<open>
  \<open>normalizeEvent\<close> is the first part of \<^verbatim>\<open>handleCommand\<close>: it resolves with \<open>None\<close>
  where the source returns early and with the message of line 124 otherwise.
  \<open>startTime\<close> is the \<^verbatim>\<open>Date.now()\<close> of line 66; \<open>roomJoinedAt\<close> is the global
  of line 22, read before the first \<^verbatim>\<open>await\<close>; a room has an entry of type number
  exactly when the join callback (line 199) stored one.
\<close>

definition normalizeEvent ::
  "'w Env \<Rightarrow> int \<Rightarrow> (string \<rightharpoonup> int) \<Rightarrow> string \<Rightarrow> Event \<Rightarrow> 'w \<Rightarrow> (Message option, 'w) run"
where
  "normalizeEvent env startTime roomJoinedAt roomId ev w =
     (case content ev of
        None \<Rightarrow> ([], Resolved None, w)
      | Some c \<Rightarrow>
          let eventTime = parseInt (origin_server_ts ev) in
          if js_lt eventTime (Num startTime) then ([], Resolved None, w)
          else if (case roomJoinedAt roomId of
                     Some joined \<Rightarrow> js_lt eventTime (Num joined)
                   | None \<Rightarrow> False)
          then ([], Resolved None, w)
          else if msgtype c \<noteq> Some ''m.text'' then ([], Resolved None, w)
          else
            (case Content.body c of
               None \<Rightarrow> ([], Resolved None, w)
             | Some b \<Rightarrow>
                 if b = [] then ([], Resolved None, w)
                 else
                   (case replyBody (relates_to c) b of
                      Inl err \<Rightarrow> ([], Rejected err, w)
                    | Inr b1 \<Rightarrow>
                        (case getUserId env w of
                           (Rejected err, w1) \<Rightarrow> ([GetUserId], Rejected err, w1)
                         | (Pending, w1) \<Rightarrow> ([GetUserId], Pending, w1)
                         | (Resolved me, w1) \<Rightarrow>
                             if Event.sender ev = me then ([GetUserId], Resolved None, w1)
                             else
                               let b2 = trim b1 in
                               if \<not> (0 < length b2) then ([GetUserId], Resolved None, w1)
                               else
                                 ([GetUserId],
                                  Resolved (Some \<lparr>Message.body = b2, sender = Event.sender ev,
                                                   room = roomId, event = ev\<rparr>),
                                  w1)))))"

section \<open>The dispatch loop of \<^verbatim>\<open>handleCommand\<close> (lines 131 to 146)\<close>

text \<open>
  Lines 141 to 145: the handler is called and awaited inside \<^verbatim>\<open>try\<close>; a failure is
  logged and the loop goes on; a promise that never settles leaves the loop waiting.
\<close>

definition tryHandler :: "Extra \<Rightarrow> Message \<Rightarrow> 'w Handler \<Rightarrow> 'w \<Rightarrow> (unit, 'w) run" where
  "tryHandler ex msg h w =
     (case handler h msg ex w of
        (Resolved u, w1) \<Rightarrow> ([HandlerCall (moduleName h) msg ex], Resolved (), w1)
      | (Rejected err, w1) \<Rightarrow>
          ([HandlerCall (moduleName h) msg ex, ConsoleError err], Resolved (), w1)
      | (Pending, w1) \<Rightarrow> ([HandlerCall (moduleName h) msg ex], Pending, w1))"

text \<open>
  Lines 132 to 145, the body of the loop for one handler. \<open>Resolved ()\<close> means that the
  loop goes on to the next handler; the lookup of line 135 is awaited outside
  \<^verbatim>\<open>try\<close>, so its rejection is the rejection of \<^verbatim>\<open>handleCommand\<close>.
\<close>

definition loopBody ::
  "'w Env \<Rightarrow> Extra \<Rightarrow> string \<Rightarrow> Message \<Rightarrow> 'w Handler \<Rightarrow> 'w \<Rightarrow> (unit, 'w) run"
where
  "loopBody env ex roomId msg h w =
     (if moduleName h \<noteq> ''admin'' then
        (case isModuleEnabled env roomId (moduleName h) w of
           (Rejected err, w1) \<Rightarrow> ([IsModuleEnabled roomId (moduleName h)], Rejected err, w1)
         | (Pending, w1) \<Rightarrow> ([IsModuleEnabled roomId (moduleName h)], Pending, w1)
         | (Resolved enabled, w1) \<Rightarrow>
             if \<not> enabled then ([IsModuleEnabled roomId (moduleName h)], Resolved (), w1)
             else after [IsModuleEnabled roomId (moduleName h)] (tryHandler ex msg h w1))
      else tryHandler ex msg h w)"

text \<open>Lines 131 to 146: the loop over \<^verbatim>\<open>config.handlers\<close>, in order.\<close>

fun dispatch ::
  "'w Env \<Rightarrow> Extra \<Rightarrow> string \<Rightarrow> Message \<Rightarrow> 'w Handler list \<Rightarrow> 'w \<Rightarrow> (unit, 'w) run"
where
  "dispatch env ex roomId msg [] w = ([], Resolved (), w)"
| "dispatch env ex roomId msg (h # hs) w =
     (case loopBody env ex roomId msg h w of
        (t, Resolved u, w1) \<Rightarrow> after t (dispatch env ex roomId msg hs w1)
      | (t, Rejected err, w1) \<Rightarrow> (t, Rejected err, w1)
      | (t, Pending, w1) \<Rightarrow> (t, Pending, w1))"

text \<open>\<^verbatim>\<open>handleCommand\<close> (lines 67 to 147): the filter, then the loop.\<close>

definition handleCommand ::
  "'w Env \<Rightarrow> 'w Config \<Rightarrow> int \<Rightarrow> (string \<rightharpoonup> int) \<Rightarrow> string \<Rightarrow> Event \<Rightarrow> 'w \<Rightarrow> (unit, 'w) run"
where
  "handleCommand env config startTime roomJoinedAt roomId ev w =
     (case normalizeEvent env startTime roomJoinedAt roomId ev w of
        (t, Resolved None, w1) \<Rightarrow> (t, Resolved (), w1)
      | (t, Resolved (Some msg), w1) \<Rightarrow>
          after t (dispatch env (extra config) roomId msg (handlers config) w1)
      | (t, Rejected err, w1) \<Rightarrow> (t, Rejected err, w1)
      | (t, Pending, w1) \<Rightarrow> (t, Pending, w1))"

text \<open>The handlers that a run called, by module name and message.\<close>

fun invoked :: "action list \<Rightarrow> (string \<times> Message) list" where
  "invoked [] = []"
| "invoked (HandlerCall name msg ex # t) = (name, msg) # invoked t"
| "invoked (a # t) = invoked t"

section \<open>Shutdown: \<^verbatim>\<open>exitHandler\<close> (lines 256 to 286)\<close>

text \<open>
  What the shutdown does to the outside: console output, the transport operations on a
  client, timers and the end of the process.
\<close>

datatype shutdown_op =
    ConsoleLog string
  | Stop nat
  | Wait nat
  | SetPresenceStatus nat string string
  | GetPresenceStatus nat
  | ProcessExit int

text \<open>
  An invocation of \<^verbatim>\<open>exitHandler\<close> that passed the guard of line 257 is suspended at
  one of its four \<^verbatim>\<open>await\<close>s (lines 267, 268, 271 and 276) or has settled; it keeps
  its local \<^verbatim>\<open>_client\<close>.
\<close>

datatype await_point =
    AwaitWait1000
  | AwaitSetPresence
  | AwaitGetPresence
  | AwaitWait11000
  | Settled

record task =
  client :: nat
  at :: await_point

text \<open>
  The process: the global \<^verbatim>\<open>CLIENT\<close> of line 20 (a client is a number here), the
  invocations under way, the operations so far, and whether \<^verbatim>\<open>process.exit\<close> ran.
\<close>

record process =
  CLIENT :: "nat option"
  tasks :: "task list"
  ops :: "shutdown_op list"
  exited :: bool

text \<open>
  JavaScript runs an asynchronous function without interruption up to its next
  \<^verbatim>\<open>await\<close>. \<open>exitHandler\<close> is that first stretch of an invocation, lines 257 to
  267: the guard, the copy and clearing of \<^verbatim>\<open>CLIENT\<close>, the log line,
  \<^verbatim>\<open>_client.stop()\<close>, and the timer of \<^verbatim>\<open>wait(1000)\<close> at which it suspends.
\<close>

definition exitHandler :: "process \<Rightarrow> process" where
  "exitHandler p =
     (case CLIENT p of
        None \<Rightarrow> p
      | Some c \<Rightarrow>
          p\<lparr>CLIENT := None,
            ops := ops p @ [ConsoleLog ''setting bot presence to offline...'', Stop c, Wait 1000],
            tasks := tasks p @ [\<lparr>client = c, at = AwaitWait1000\<rparr>]\<rparr>)"

text \<open>
  How an awaited promise settles. \<open>resume k r p\<close> runs invocation \<open>k\<close> from the
  \<^verbatim>\<open>await\<close> it is suspended at, settled by \<open>r\<close>, up to its next \<^verbatim>\<open>await\<close>, its
  rejection or \<^verbatim>\<open>process.exit(0)\<close> (lines 268 to 279). A timer never fails.
\<close>

datatype settlement = Fulfilled string | Failed string

definition suspend :: "nat \<Rightarrow> await_point \<Rightarrow> shutdown_op list \<Rightarrow> process \<Rightarrow> process" where
  "suspend k a new p =
     p\<lparr>ops := ops p @ new, tasks := (tasks p)[k := (tasks p ! k)\<lparr>at := a\<rparr>]\<rparr>"

definition resume :: "nat \<Rightarrow> settlement \<Rightarrow> process \<Rightarrow> process" where
  "resume k r p =
     (if k < length (tasks p) then
        (let c = client (tasks p ! k) in
         case (at (tasks p ! k), r) of
           (AwaitWait1000, Fulfilled v) \<Rightarrow>
             suspend k AwaitSetPresence [SetPresenceStatus c ''offline'' ''bot exited''] p
         | (AwaitSetPresence, Fulfilled v) \<Rightarrow>
             suspend k AwaitGetPresence [GetPresenceStatus c] p
         | (AwaitSetPresence, Failed err) \<Rightarrow> suspend k Settled [] p
         | (AwaitGetPresence, Fulfilled presence) \<Rightarrow>
             if presence \<noteq> ''online''
             then (suspend k Settled [ConsoleLog ''Done, ciao!'', ProcessExit 0] p)
                    \<lparr>exited := True\<rparr>
             else suspend k AwaitWait11000
                    [ConsoleLog (''waiting, status is '' @ presence), Wait 11000] p
         | (AwaitGetPresence, Failed err) \<Rightarrow> suspend k Settled [] p
         | (AwaitWait11000, Fulfilled v) \<Rightarrow>
             suspend k AwaitGetPresence [GetPresenceStatus c] p
         | _ \<Rightarrow> p)
      else p)"

text \<open>
  What can happen to the process after start-up: a termination signal (lines 283 to 286
  register \<^verbatim>\<open>exitHandler\<close> for each), or the promise that an invocation awaits
  settles. Nothing happens once the process has exited. \<open>run\<close> takes the events in the
  order in which they occur, which is any interleaving.
\<close>

datatype input = Signal | Settle nat settlement

definition step :: "input \<Rightarrow> process \<Rightarrow> process" where
  "step i p =
     (if exited p then p
      else (case i of Signal \<Rightarrow> exitHandler p | Settle k r \<Rightarrow> resume k r p))"

fun run :: "input list \<Rightarrow> process \<Rightarrow> process" where
  "run [] p = p"
| "run (i # ins) p = run ins (step i p)"

section \<open>Passing the gate\<close>

text \<open>
  A handler passes the gate of lines 134 to 139 in world \<open>w\<close> when it is the module
  \<^verbatim>\<open>"admin"\<close>, for which no lookup is made, or when the lookup resolves to true;
  \<open>g\<close> is the calls made and \<open>w'\<close> the world afterwards.
\<close>

definition passesGate ::
  "'w Env \<Rightarrow> string \<Rightarrow> 'w Handler \<Rightarrow> 'w \<Rightarrow> action list \<Rightarrow> 'w \<Rightarrow> bool" where
  "passesGate env roomId h w g w' =
     (if moduleName h = ''admin'' then g = [] \<and> w' = w
      else g = [IsModuleEnabled roomId (moduleName h)] \<and>
           isModuleEnabled env roomId (moduleName h) w = (Resolved True, w'))"

section \<open>Sample inputs\<close>

text \<open>
  A settings store as the world: the list of the (room, module) pairs that are disabled.
  \<open>storeEnv\<close> answers from it; the lookup of \<open>brokenEnv\<close> rejects. A handler that
  throws, one that returns and one whose promise never settles; an event, the message it
  yields, and a configuration.
\<close>

type_synonym store = "(string \<times> string) list"

definition storeEnv :: "store Env" where
  "storeEnv =
     \<lparr>getUserId = (\<lambda>w. (Resolved ''@bot:example.org'', w)),
      isModuleEnabled = (\<lambda>r n w. (Resolved ((r, n) \<notin> set w), w))\<rparr>"

definition brokenEnv :: "store Env" where
  "brokenEnv =
     \<lparr>getUserId = (\<lambda>w. (Resolved ''@bot:example.org'', w)),
      isModuleEnabled = (\<lambda>r n w. (Rejected ''store unavailable'', w))\<rparr>"

definition failing :: "string \<Rightarrow> store Handler" where
  "failing n = \<lparr>moduleName = n, handler = (\<lambda>m e w. (Rejected ''boom'', w))\<rparr>"

definition passing :: "string \<Rightarrow> store Handler" where
  "passing n = \<lparr>moduleName = n, handler = (\<lambda>m e w. (Resolved (), w))\<rparr>"

definition hanging :: "string \<Rightarrow> store Handler" where
  "hanging n = \<lparr>moduleName = n, handler = (\<lambda>m e w. (Pending, w))\<rparr>"

definition sampleExtra :: Extra where
  "sampleExtra =
     \<lparr>handlerNames = [''admin'', ''alpha'', ''beta''], helpMessages = [],
      owner = ''@owner:example.org'', logLevel = ''warn''\<rparr>"

definition sampleEvent :: Event where
  "sampleEvent =
     \<lparr>content = Some \<lparr>msgtype = Some ''m.text'', Content.body = Some ''!help'',
                       relates_to = RelUndefined\<rparr>,
      origin_server_ts = TsNumber 2000, Event.sender = ''@alice:example.org''\<rparr>"

definition sampleMessage :: Message where
  "sampleMessage =
     \<lparr>Message.body = ''!help'', sender = ''@alice:example.org'', room = ''!lobby'',
      event = sampleEvent\<rparr>"

definition sampleConfig :: "store Config" where
  "sampleConfig = \<lparr>handlers = [passing ''admin'', passing ''alpha''], extra = sampleExtra\<rparr>"

definition eventAt :: "js_ts \<Rightarrow> Event" where
  "eventAt ts = sampleEvent\<lparr>origin_server_ts := ts\<rparr>"

definition replyEvent :: Event where
  "replyEvent =
     \<lparr>content = Some \<lparr>msgtype = Some ''m.text'',
                       Content.body = Some ''> a\<newline>> b\<newline>\<newline>hello'',
                       relates_to = RelValue True\<rparr>,
      origin_server_ts = TsNumber 2000, Event.sender = ''@alice:example.org''\<rparr>"

text \<open>A process after start-up with client 7, and one with no active client.\<close>

definition runningProcess :: process where
  "runningProcess = \<lparr>CLIENT = Some 7, tasks = [], ops = [], exited = False\<rparr>"

definition idleProcess :: process where
  "idleProcess = \<lparr>CLIENT = None, tasks = [], ops = [], exited = False\<rparr>"

section \<open>Numbers\<close>

text \<open>A safe integer is its own Number and reads back as itself.\<close>

lemma parseIntNumber_safe: "\<bar>n\<bar> < 2 ^ 53 \<Longrightarrow> parseIntNumber n = Num n"
proof -
  assume safe: "\<bar>n\<bar> < 2 ^ 53"
  then have r: "roundToDouble \<bar>n\<bar> = \<bar>n\<bar>"
    by (simp only: roundToDouble_def if_True)
  have "(2::int) ^ 53 \<le> 2 ^ 1024"
    by (rule power_increasing) simp_all
  with safe have "\<bar>n\<bar> < 2 ^ 1024"
    by (rule less_le_trans)
  then have "\<not> 2 ^ 1024 \<le> \<bar>n\<bar>"
    by (simp only: not_le)
  then have "toNumber n = Num (if n < 0 then - \<bar>n\<bar> else \<bar>n\<bar>)"
    by (simp only: toNumber_def Let_def r if_False)
  moreover have "(if n < 0 then - \<bar>n\<bar> else \<bar>n\<bar>) = n"
    by simp
  ultimately have t: "toNumber n = Num n"
    by (simp only:)
  have "(2::int) ^ 53 \<le> 10 ^ 21"
    by simp
  with safe have "\<bar>n\<bar> < 10 ^ 21"
    by (rule less_le_trans)
  then show ?thesis
    by (simp only: parseIntNumber_def t jsnum.case if_True)
qed

section \<open>Lines and white space\<close>

lemma split_nl_nonempty: "split_nl s \<noteq> []"
  by (induction s) (auto split: list.splits)

lemma join_split_nl: "join_nl (split_nl s) = s"
proof (induction s)
  case Nil
  show ?case by simp
next
  case (Cons c cs)
  obtain l ls where sp: "split_nl cs = l # ls"
    using split_nl_nonempty [of cs] by (cases "split_nl cs") auto
  with Cons show ?case by (cases ls) auto
qed

lemma split_nl_no_lf: "l \<in> set (split_nl s) \<Longrightarrow> CHR 0x0A \<notin> set l"
proof (induction s arbitrary: l)
  case Nil
  then show ?case by simp
next
  case (Cons c cs)
  obtain k ks where sp: "split_nl cs = k # ks"
    using split_nl_nonempty [of cs] by (cases "split_nl cs") auto
  from Cons sp show ?case by (auto split: if_splits)
qed

lemma split_nl_line: "CHR 0x0A \<notin> set l \<Longrightarrow> split_nl (l @ CHR 0x0A # s) = l # split_nl s"
  by (induction l) auto

lemma split_nl_single: "CHR 0x0A \<notin> set l \<Longrightarrow> split_nl l = [l]"
  by (induction l) auto

lemma split_join_nl:
  "ls \<noteq> [] \<Longrightarrow> \<forall>l \<in> set ls. CHR 0x0A \<notin> set l \<Longrightarrow> split_nl (join_nl ls) = ls"
proof (induction ls rule: join_nl.induct)
  case 1
  then show ?case by simp
next
  case (2 l)
  then show ?case by (simp add: split_nl_single)
next
  case (3 l l' ls)
  then show ?case by (simp add: split_nl_line)
qed

lemma trim_empty_iff: "trim l = [] \<longleftrightarrow> list_all isWhiteSpace l"
proof
  assume t: "trim l = []"
  show "list_all isWhiteSpace l"
  proof (cases "dropWhile isWhiteSpace l")
    case Nil
    then show ?thesis by (simp add: dropWhile_eq_Nil_conv list_all_iff)
  next
    case (Cons c cs)
    then have "\<not> isWhiteSpace c" using hd_dropWhile [of isWhiteSpace l] by auto
    moreover from t Cons have "isWhiteSpace c"
      by (simp add: trim_def dropWhile_eq_Nil_conv)
    ultimately show ?thesis by simp
  qed
next
  assume "list_all isWhiteSpace l"
  then have "dropWhile isWhiteSpace l = []"
    by (simp add: dropWhile_eq_Nil_conv list_all_iff)
  then show "trim l = []" unfolding trim_def by (auto dest: set_dropWhileD)
qed

lemma shiftQuoted_dropWhile: "shiftQuoted ls = dropWhile quotedOrBlank ls"
  by (induction ls) (simp_all add: quotedOrBlank_def trim_empty_iff)

lemma shiftQuoted_subset: "set (shiftQuoted ls) \<subseteq> set ls"
  by (induction ls) auto

lemma shiftQuoted_idem: "shiftQuoted (shiftQuoted ls) = shiftQuoted ls"
  by (induction ls) auto

lemma stripReply_idem: "stripReply (stripReply b) = stripReply b"
proof (cases "shiftQuoted (split_nl b) = []")
  case True
  then show ?thesis by (simp add: stripReply_def trim_def)
next
  case False
  have "\<forall>l \<in> set (shiftQuoted (split_nl b)). CHR 0x0A \<notin> set l"
    using shiftQuoted_subset [of "split_nl b"] split_nl_no_lf [of _ b] by blast
  with False have "split_nl (join_nl (shiftQuoted (split_nl b))) = shiftQuoted (split_nl b)"
    by (rule split_join_nl)
  then show ?thesis by (simp add: stripReply_def shiftQuoted_idem)
qed

section \<open>Runs of the dispatch loop\<close>

lemma after_Nil: "after [] r = r"
  by (simp add: after_def split: prod.splits)

lemma after_after: "after t (after t' r) = after (t @ t') r"
  by (simp add: after_def split: prod.splits)

lemma after_triple: "after t (t', res, w) = (t @ t', res, w)"
  by (simp add: after_def)

lemma fst_after: "fst (after t r) = t @ fst r"
  by (simp add: after_def split: prod.splits)

lemma invoked_append: "invoked (t @ t') = invoked t @ invoked t'"
  by (induction t rule: invoked.induct) simp_all

lemma dispatch_append:
  "dispatch env ex roomId msg (pre @ post) w =
     (case dispatch env ex roomId msg pre w of
        (t, Resolved u, w1) \<Rightarrow> after t (dispatch env ex roomId msg post w1)
      | (t, Rejected err, w1) \<Rightarrow> (t, Rejected err, w1)
      | (t, Pending, w1) \<Rightarrow> (t, Pending, w1))"
proof (induction pre arbitrary: w)
  case Nil
  show ?case by (simp add: after_Nil)
next
  case (Cons h hs)
  obtain t r w1 where lb: "loopBody env ex roomId msg h w = (t, r, w1)"
    by (cases "loopBody env ex roomId msg h w") auto
  show ?case
  proof (cases r)
    case (Resolved u)
    obtain t' r' w2 where d: "dispatch env ex roomId msg hs w1 = (t', r', w2)"
      by (cases "dispatch env ex roomId msg hs w1") auto
    with lb Resolved Cons.IH [of w1] show ?thesis
      by (cases r') (simp_all add: after_triple after_after)
  next
    case (Rejected err)
    with lb show ?thesis by simp
  next
    case Pending
    with lb show ?thesis by simp
  qed
qed

lemma dispatch_reached:
  assumes "dispatch env ex roomId msg pre w = (t, Resolved (), w1)"
  shows "dispatch env ex roomId msg (pre @ h # post) w =
           after t (case loopBody env ex roomId msg h w1 of
                      (tb, Resolved u, w2) \<Rightarrow> after tb (dispatch env ex roomId msg post w2)
                    | (tb, Rejected err, w2) \<Rightarrow> (tb, Rejected err, w2)
                    | (tb, Pending, w2) \<Rightarrow> (tb, Pending, w2))"
  using assms by (simp add: dispatch_append)

lemma loopBody_passes:
  assumes "passesGate env roomId h w g w'"
  shows "loopBody env ex roomId msg h w = after g (tryHandler ex msg h w')"
  using assms by (auto simp: passesGate_def loopBody_def after_Nil split: if_splits)

lemma tryHandler_rejected:
  assumes "handler h msg ex w = (Rejected err, w')"
  shows "tryHandler ex msg h w =
           ([HandlerCall (moduleName h) msg ex, ConsoleError err], Resolved (), w')"
  using assms by (simp add: tryHandler_def)

lemma tryHandler_calls:
  "\<exists>t' res w'. tryHandler ex msg h w = (HandlerCall (moduleName h) msg ex # t', res, w')"
  by (cases "handler h msg ex w"; cases "fst (handler h msg ex w)") (auto simp: tryHandler_def)

lemma invoked_tryHandler: "invoked (fst (tryHandler ex msg h w)) = [(moduleName h, msg)]"
  by (cases "handler h msg ex w"; cases "fst (handler h msg ex w)") (auto simp: tryHandler_def)

lemma gate_not_in_tryHandler: "IsModuleEnabled r n \<notin> set (fst (tryHandler ex msg h w))"
  by (cases "handler h msg ex w"; cases "fst (handler h msg ex w)") (auto simp: tryHandler_def)

lemma loopBody_gate_names:
  "IsModuleEnabled r n \<in> set (fst (loopBody env ex roomId msg h w)) \<Longrightarrow> n \<noteq> ''admin''"
  using gate_not_in_tryHandler [of r n ex msg h]
  by (auto simp: loopBody_def fst_after split: if_splits prod.splits await.splits)

lemma dispatch_gate_names:
  "IsModuleEnabled r n \<in> set (fst (dispatch env ex roomId msg hs w)) \<Longrightarrow> n \<noteq> ''admin''"
proof (induction hs arbitrary: w)
  case Nil
  then show ?case by simp
next
  case (Cons h hs)
  obtain t res w1 where lb: "loopBody env ex roomId msg h w = (t, res, w1)"
    by (cases "loopBody env ex roomId msg h w") auto
  have t: "IsModuleEnabled r n \<in> set t \<Longrightarrow> n \<noteq> ''admin''"
    using loopBody_gate_names [of r n env ex roomId msg h w] lb by simp
  from Cons.prems lb show ?case
    using t Cons.IH [of w1] by (cases res) (auto simp: fst_after)
qed



lemmas sample_defs =
  storeEnv_def brokenEnv_def failing_def passing_def hanging_def

lemmas run_defs = loopBody_def tryHandler_def after_def

text \<open>
  Claim C1 as stated fails where a later handler is disabled: \<open>alpha\<close> throws, the
  loop goes on, and \<open>beta\<close>, registered after it and disabled for the room, is not
  invoked.
\<close>

theorem dispatch_isolation_counterexample:
  "handler (failing ''alpha'') sampleMessage sampleExtra [(''!lobby'', ''beta'')]
     = (Rejected ''boom'', [(''!lobby'', ''beta'')]) \<and>
   dispatch storeEnv sampleExtra ''!lobby'' sampleMessage
       [failing ''alpha'', passing ''beta''] [(''!lobby'', ''beta'')]
     = ([IsModuleEnabled ''!lobby'' ''alpha'',
         HandlerCall ''alpha'' sampleMessage sampleExtra,
         ConsoleError ''boom'',
         IsModuleEnabled ''!lobby'' ''beta''],
        Resolved (), [(''!lobby'', ''beta'')]) \<and>
   (''beta'', sampleMessage) \<notin> set (invoked (fst
      (dispatch storeEnv sampleExtra ''!lobby'' sampleMessage
         [failing ''alpha'', passing ''beta''] [(''!lobby'', ''beta'')])))"
  by (simp add: sample_defs run_defs)

text \<open>
  Claim C1, amended. When the loop reaches a handler that passes the gate and its
  invocation throws or rejects, the failure is caught and logged with
  \<^verbatim>\<open>console.error\<close>, and the loop goes on with the handlers registered after it,
  in the world the failed handler left and with the same message: the run of
  \<^verbatim>\<open>dispatch\<close>, its result included, is the run of the rest of the loop after these
  calls. Every later handler that the loop reaches and that passes the gate is invoked with
  the same message.
\<close>

theorem dispatch_isolates_handler_failure:
  assumes reached: "dispatch env ex roomId msg pre w = (t, Resolved (), w1)"
    and gate: "passesGate env roomId h w1 g w2"
    and throws: "handler h msg ex w2 = (Rejected err, w3)"
  shows "dispatch env ex roomId msg (pre @ h # post) w =
           after (t @ g @ [HandlerCall (moduleName h) msg ex, ConsoleError err])
             (dispatch env ex roomId msg post w3) \<and>
         (\<forall>mid k rest t' w4 g' w5.
            post = mid @ k # rest \<and>
            dispatch env ex roomId msg mid w3 = (t', Resolved (), w4) \<and>
            passesGate env roomId k w4 g' w5 \<longrightarrow>
            (moduleName k, msg) \<in> set (invoked (fst
               (dispatch env ex roomId msg (pre @ h # post) w))))"
proof -
  have body: "loopBody env ex roomId msg h w1 =
      (g @ [HandlerCall (moduleName h) msg ex, ConsoleError err], Resolved (), w3)"
    using loopBody_passes [OF gate] tryHandler_rejected [OF throws]
    by (simp add: after_triple)
  have eq: "dispatch env ex roomId msg (pre @ h # post) w =
           after (t @ g @ [HandlerCall (moduleName h) msg ex, ConsoleError err])
             (dispatch env ex roomId msg post w3)"
    using dispatch_reached [OF reached, of h post] body by (simp add: after_after)
  have later: "(moduleName k, msg) \<in> set (invoked (fst
               (dispatch env ex roomId msg (pre @ h # post) w)))"
    if split: "post = mid @ k # rest"
      and mid: "dispatch env ex roomId msg mid w3 = (t', Resolved (), w4)"
      and pass: "passesGate env roomId k w4 g' w5"
    for mid k rest t' w4 g' w5
  proof -
    have "invoked (fst (loopBody env ex roomId msg k w4)) = [(moduleName k, msg)]"
      using loopBody_passes [OF pass, of ex msg] invoked_tryHandler [of ex msg k w5]
        pass
      by (auto simp: fst_after invoked_append passesGate_def split: if_splits)
    then have "(moduleName k, msg) \<in> set (invoked (fst
        (dispatch env ex roomId msg (mid @ k # rest) w3)))"
      using dispatch_reached [OF mid, of k rest]
      by (cases "loopBody env ex roomId msg k w4"; cases "fst (snd (loopBody env ex roomId msg k w4))")
        (auto simp: fst_after invoked_append)
    with eq split show ?thesis by (simp add: fst_after invoked_append)
  qed
  from eq later show ?thesis by blast
qed

theorem dispatch_isolates_handler_failure_witness:
  "dispatch storeEnv sampleExtra ''!lobby'' sampleMessage
       [passing ''admin'', failing ''alpha'', passing ''beta'', passing ''gamma'']
       [(''!lobby'', ''beta'')]
     = ([HandlerCall ''admin'' sampleMessage sampleExtra,
         IsModuleEnabled ''!lobby'' ''alpha'',
         HandlerCall ''alpha'' sampleMessage sampleExtra,
         ConsoleError ''boom'',
         IsModuleEnabled ''!lobby'' ''beta'',
         IsModuleEnabled ''!lobby'' ''gamma'',
         HandlerCall ''gamma'' sampleMessage sampleExtra],
        Resolved (), [(''!lobby'', ''beta'')]) \<and>
   (''gamma'', sampleMessage) \<in> set (invoked (fst
      (dispatch storeEnv sampleExtra ''!lobby'' sampleMessage
         [passing ''admin'', failing ''alpha'', passing ''beta'', passing ''gamma'']
         [(''!lobby'', ''beta'')])))"
proof -
  let ?w = "[(''!lobby'', ''beta'')] :: store"
  have reached: "dispatch storeEnv sampleExtra ''!lobby'' sampleMessage [passing ''admin''] ?w
      = ([HandlerCall ''admin'' sampleMessage sampleExtra], Resolved (), ?w)"
    by (simp add: sample_defs run_defs)
  have gate: "passesGate storeEnv ''!lobby'' (failing ''alpha'') ?w
      [IsModuleEnabled ''!lobby'' ''alpha''] ?w"
    by (simp add: passesGate_def sample_defs)
  have throws: "handler (failing ''alpha'') sampleMessage sampleExtra ?w = (Rejected ''boom'', ?w)"
    by (simp add: sample_defs)
  note inst = dispatch_isolates_handler_failure [OF reached gate throws,
      of "[passing ''beta'', passing ''gamma'']"]
  have mid: "dispatch storeEnv sampleExtra ''!lobby'' sampleMessage [passing ''beta''] ?w
      = ([IsModuleEnabled ''!lobby'' ''beta''], Resolved (), ?w)"
    by (simp add: sample_defs run_defs)
  have pass: "passesGate storeEnv ''!lobby'' (passing ''gamma'') ?w
      [IsModuleEnabled ''!lobby'' ''gamma''] ?w"
    by (simp add: passesGate_def sample_defs)
  have rest: "dispatch storeEnv sampleExtra ''!lobby'' sampleMessage
      [passing ''beta'', passing ''gamma''] ?w
      = ([IsModuleEnabled ''!lobby'' ''beta'', IsModuleEnabled ''!lobby'' ''gamma'',
          HandlerCall ''gamma'' sampleMessage sampleExtra], Resolved (), ?w)"
    by (simp add: sample_defs run_defs)
  have one: "dispatch storeEnv sampleExtra ''!lobby'' sampleMessage
       [passing ''admin'', failing ''alpha'', passing ''beta'', passing ''gamma''] ?w
     = ([HandlerCall ''admin'' sampleMessage sampleExtra,
         IsModuleEnabled ''!lobby'' ''alpha'',
         HandlerCall ''alpha'' sampleMessage sampleExtra,
         ConsoleError ''boom'',
         IsModuleEnabled ''!lobby'' ''beta'',
         IsModuleEnabled ''!lobby'' ''gamma'',
         HandlerCall ''gamma'' sampleMessage sampleExtra],
        Resolved (), ?w)"
    using inst [THEN conjunct1] rest by (simp add: after_triple failing_def)
  have two: "(''gamma'', sampleMessage) \<in> set (invoked (fst
      (dispatch storeEnv sampleExtra ''!lobby'' sampleMessage
         [passing ''admin'', failing ''alpha'', passing ''beta'', passing ''gamma''] ?w)))"
    using inst [THEN conjunct2, rule_format, of "[passing ''beta'']" "passing ''gamma''" "[]"
        "[IsModuleEnabled ''!lobby'' ''beta'']" ?w "[IsModuleEnabled ''!lobby'' ''gamma'']" ?w]
      mid pass by (simp add: passing_def)
  from one two show ?thesis by blast
qed

text \<open>
  Claim C2 as stated fails where the loop never reaches the \<^verbatim>\<open>"admin"\<close> handler.
  With \<open>alpha\<close> registered before it, the lookup for \<open>alpha\<close> rejects (line 135 is
  outside \<^verbatim>\<open>try\<close>) and the loop ends; or the handler of \<open>alpha\<close> never settles and
  the loop waits at line 142. In both runs \<^verbatim>\<open>"admin"\<close> is not invoked; in the second
  it is invoked once \<open>alpha\<close> is disabled for the room, so whether it runs depends on
  the stored state.
\<close>

theorem admin_unreached_counterexample:
  "dispatch brokenEnv sampleExtra ''!lobby'' sampleMessage
       [passing ''alpha'', passing ''admin''] []
     = ([IsModuleEnabled ''!lobby'' ''alpha''], Rejected ''store unavailable'', []) \<and>
   (''admin'', sampleMessage) \<notin> set (invoked (fst
      (dispatch brokenEnv sampleExtra ''!lobby'' sampleMessage
         [passing ''alpha'', passing ''admin''] []))) \<and>
   dispatch storeEnv sampleExtra ''!lobby'' sampleMessage
       [hanging ''alpha'', passing ''admin''] []
     = ([IsModuleEnabled ''!lobby'' ''alpha'',
         HandlerCall ''alpha'' sampleMessage sampleExtra], Pending, []) \<and>
   (''admin'', sampleMessage) \<notin> set (invoked (fst
      (dispatch storeEnv sampleExtra ''!lobby'' sampleMessage
         [hanging ''alpha'', passing ''admin''] []))) \<and>
   (''admin'', sampleMessage) \<in> set (invoked (fst
      (dispatch storeEnv sampleExtra ''!lobby'' sampleMessage
         [hanging ''alpha'', passing ''admin''] [(''!lobby'', ''alpha'')])))"
  by (simp add: sample_defs run_defs)

text \<open>
  Claim C2, amended. A handler registered under the module name \<^verbatim>\<open>"admin"\<close> is
  invoked without the settings lookup whenever the loop reaches it, that is, when every
  earlier turn has completed: its turn of the loop is the invocation alone, whatever the
  lookup would answer and whatever the world holds; the call that follows the calls of
  the earlier turns is the handler itself, with the message; and no run of the loop,
  reaching it or not, ever holds a lookup for the module \<^verbatim>\<open>"admin"\<close>.
\<close>

theorem admin_bypasses_gate:
  assumes admin: "moduleName h = ''admin''"
    and reached: "dispatch env ex roomId msg pre w = (t, Resolved (), w1)"
  shows "loopBody env ex roomId msg h w1 = tryHandler ex msg h w1 \<and>
         take (Suc (length t)) (fst (dispatch env ex roomId msg (pre @ h # post) w))
           = t @ [HandlerCall ''admin'' msg ex] \<and>
         (''admin'', msg) \<in> set (invoked (fst
            (dispatch env ex roomId msg (pre @ h # post) w))) \<and>
         (\<forall>r. IsModuleEnabled r ''admin'' \<notin>
            set (fst (dispatch env ex roomId msg (pre @ h # post) w)))"
proof -
  have body: "loopBody env ex roomId msg h w1 = tryHandler ex msg h w1"
    using admin by (simp add: loopBody_def)
  obtain t' res w2 where
    call: "tryHandler ex msg h w1 = (HandlerCall ''admin'' msg ex # t', res, w2)"
    using tryHandler_calls [of ex msg h w1] admin by auto
  have "\<exists>t''. fst (dispatch env ex roomId msg (pre @ h # post) w)
      = t @ HandlerCall ''admin'' msg ex # t''"
    using dispatch_reached [OF reached, of h post] body call
    by (cases res) (auto simp: fst_after)
  then obtain t'' where tr: "fst (dispatch env ex roomId msg (pre @ h # post) w)
      = t @ HandlerCall ''admin'' msg ex # t''" by blast
  have first: "take (Suc (length t)) (fst (dispatch env ex roomId msg (pre @ h # post) w))
           = t @ [HandlerCall ''admin'' msg ex]"
    by (simp add: tr)
  have called: "(''admin'', msg) \<in> set (invoked (fst
            (dispatch env ex roomId msg (pre @ h # post) w)))"
    by (simp add: tr invoked_append)
  have never: "\<forall>r. IsModuleEnabled r ''admin'' \<notin>
            set (fst (dispatch env ex roomId msg (pre @ h # post) w))"
    using dispatch_gate_names [of _ "''admin''" env ex roomId msg "pre @ h # post" w] by blast
  from body first called never show ?thesis by blast
qed

theorem admin_bypasses_gate_witness:
  "loopBody storeEnv sampleExtra ''!lobby'' sampleMessage (passing ''admin'')
       [(''!lobby'', ''admin''), (''!lobby'', ''alpha'')]
     = ([HandlerCall ''admin'' sampleMessage sampleExtra], Resolved (),
        [(''!lobby'', ''admin''), (''!lobby'', ''alpha'')]) \<and>
   fst (dispatch storeEnv sampleExtra ''!lobby'' sampleMessage
       [passing ''alpha'', passing ''admin'', passing ''beta'']
       [(''!lobby'', ''admin''), (''!lobby'', ''alpha'')])
     = [IsModuleEnabled ''!lobby'' ''alpha'',
        HandlerCall ''admin'' sampleMessage sampleExtra,
        IsModuleEnabled ''!lobby'' ''beta'',
        HandlerCall ''beta'' sampleMessage sampleExtra] \<and>
   IsModuleEnabled ''!lobby'' ''admin'' \<notin> set (fst
     (dispatch storeEnv sampleExtra ''!lobby'' sampleMessage
       [passing ''alpha'', passing ''admin'', passing ''beta'']
       [(''!lobby'', ''admin''), (''!lobby'', ''alpha'')]))"
proof -
  let ?w = "[(''!lobby'', ''admin''), (''!lobby'', ''alpha'')] :: store"
  have admin: "moduleName (passing ''admin'') = ''admin''"
    by (simp add: passing_def)
  have reached: "dispatch storeEnv sampleExtra ''!lobby'' sampleMessage [passing ''alpha''] ?w
      = ([IsModuleEnabled ''!lobby'' ''alpha''], Resolved (), ?w)"
    by (simp add: sample_defs run_defs)
  note inst = admin_bypasses_gate [OF admin reached, of "[passing ''beta'']"]
  have body: "loopBody storeEnv sampleExtra ''!lobby'' sampleMessage (passing ''admin'') ?w
     = ([HandlerCall ''admin'' sampleMessage sampleExtra], Resolved (), ?w)"
    using inst [THEN conjunct1] by (simp add: tryHandler_def passing_def)
  have trace: "fst (dispatch storeEnv sampleExtra ''!lobby'' sampleMessage
       [passing ''alpha'', passing ''admin'', passing ''beta''] ?w)
     = [IsModuleEnabled ''!lobby'' ''alpha'',
        HandlerCall ''admin'' sampleMessage sampleExtra,
        IsModuleEnabled ''!lobby'' ''beta'',
        HandlerCall ''beta'' sampleMessage sampleExtra]"
    by (simp add: sample_defs run_defs)
  have never: "IsModuleEnabled ''!lobby'' ''admin'' \<notin> set (fst
     (dispatch storeEnv sampleExtra ''!lobby'' sampleMessage
       [passing ''alpha'', passing ''admin'', passing ''beta''] ?w))"
    using inst by simp
  from body trace never show ?thesis by blast
qed



text \<open>
  Claim C9. When the lookup for a handler of another module than \<^verbatim>\<open>"admin"\<close>
  rejects, the loop ends there: the run of \<^verbatim>\<open>dispatch\<close> is the calls of the earlier
  turns and the lookup, its result is that rejection, no handler from this position on is
  invoked (later \<^verbatim>\<open>"admin"\<close> handlers included), and \<^verbatim>\<open>handleCommand\<close> rejects
  with it.
\<close>

theorem gate_rejection_propagates:
  assumes gated: "moduleName h \<noteq> ''admin''"
    and reached: "dispatch env ex roomId msg pre w = (t, Resolved (), w1)"
    and rejects: "isModuleEnabled env roomId (moduleName h) w1 = (Rejected err, w2)"
  shows "dispatch env ex roomId msg (pre @ h # post) w =
           (t @ [IsModuleEnabled roomId (moduleName h)], Rejected err, w2) \<and>
         invoked (fst (dispatch env ex roomId msg (pre @ h # post) w)) = invoked t \<and>
         (\<forall>config startTime roomJoinedAt ev w0 tn.
            normalizeEvent env startTime roomJoinedAt roomId ev w0 = (tn, Resolved (Some msg), w) \<and>
            extra config = ex \<and> handlers config = pre @ h # post \<longrightarrow>
            handleCommand env config startTime roomJoinedAt roomId ev w0 =
              (tn @ t @ [IsModuleEnabled roomId (moduleName h)], Rejected err, w2))"
proof -
  have body: "loopBody env ex roomId msg h w1 =
           ([IsModuleEnabled roomId (moduleName h)], Rejected err, w2)"
    using gated rejects by (simp add: loopBody_def)
  have eq: "dispatch env ex roomId msg (pre @ h # post) w =
           (t @ [IsModuleEnabled roomId (moduleName h)], Rejected err, w2)"
    using dispatch_reached [OF reached, of h post] body by (simp add: after_triple)
  then have inv: "invoked (fst (dispatch env ex roomId msg (pre @ h # post) w)) = invoked t"
    by (simp add: invoked_append)
  from eq inv show ?thesis by (simp add: handleCommand_def after_triple)
qed

theorem gate_rejection_propagates_witness:
  "dispatch brokenEnv sampleExtra ''!lobby'' sampleMessage
       [passing ''admin'', passing ''alpha'', passing ''admin'', passing ''beta''] []
     = ([HandlerCall ''admin'' sampleMessage sampleExtra,
         IsModuleEnabled ''!lobby'' ''alpha''],
        Rejected ''store unavailable'', []) \<and>
   invoked (fst (dispatch brokenEnv sampleExtra ''!lobby'' sampleMessage
       [passing ''admin'', passing ''alpha'', passing ''admin'', passing ''beta''] []))
     = [(''admin'', sampleMessage)] \<and>
   handleCommand brokenEnv
       \<lparr>handlers = [passing ''admin'', passing ''alpha'', passing ''admin'', passing ''beta''],
        extra = sampleExtra\<rparr>
       1000 Map.empty ''!lobby'' sampleEvent []
     = ([GetUserId, HandlerCall ''admin'' sampleMessage sampleExtra,
         IsModuleEnabled ''!lobby'' ''alpha''],
        Rejected ''store unavailable'', [])"
proof -
  let ?w = "[] :: store"
  let ?config = "\<lparr>handlers =
      [passing ''admin'', passing ''alpha'', passing ''admin'', passing ''beta''],
      extra = sampleExtra\<rparr>"
  have gated: "moduleName (passing ''alpha'') \<noteq> ''admin''"
    by (simp add: passing_def)
  have reached: "dispatch brokenEnv sampleExtra ''!lobby'' sampleMessage [passing ''admin''] ?w
      = ([HandlerCall ''admin'' sampleMessage sampleExtra], Resolved (), ?w)"
    by (simp add: sample_defs run_defs)
  have rejects: "isModuleEnabled brokenEnv ''!lobby'' (moduleName (passing ''alpha'')) ?w
      = (Rejected ''store unavailable'', ?w)"
    by (simp add: sample_defs)
  have accepted: "normalizeEvent brokenEnv 1000 Map.empty ''!lobby'' sampleEvent ?w
      = ([GetUserId], Resolved (Some sampleMessage), ?w)"
    by (simp add: normalizeEvent_def sampleEvent_def sampleMessage_def brokenEnv_def
        parseIntNumber_safe
        trim_def isWhiteSpace_def Let_def)
  note inst = gate_rejection_propagates [OF gated reached rejects,
      of "[passing ''admin'', passing ''beta'']"]
  have whole: "handleCommand brokenEnv ?config 1000 Map.empty ''!lobby'' sampleEvent ?w
     = ([GetUserId] @ [HandlerCall ''admin'' sampleMessage sampleExtra] @
          [IsModuleEnabled ''!lobby'' (moduleName (passing ''alpha''))],
        Rejected ''store unavailable'', ?w)"
    using inst [THEN conjunct2, THEN conjunct2, rule_format,
        where config = ?config and startTime = 1000 and roomJoinedAt = Map.empty
          and ev = sampleEvent and ?w0.0 = ?w and tn = "[GetUserId]"] accepted
    by simp
  from inst whole show ?thesis by (simp add: passing_def)
qed

section \<open>The event filter\<close>

lemma parseIntString_undefined: "parseIntString ''undefined'' = NaN"
  by (simp add: parseIntString_def isWhiteSpace_def startsWith_def isDigitIn_def digitValue_def)





text \<open>
  Claim C10. When \<^verbatim>\<open>parseInt\<close> gives NaN for the time stamp (as it does for an
  absent one), neither comparison of lines 78 and 83 holds, the outcome of the filter does
  not depend on the start time or on the join times, and an event that passes the later
  stages yields its message and is dispatched.
\<close>

theorem nan_timestamp_passes_time_filters:
  assumes nan: "parseInt (origin_server_ts ev) = NaN"
  shows "parseInt TsUndefined = NaN \<and>
         \<not> js_lt (parseInt (origin_server_ts ev)) (Num startTime) \<and>
         \<not> (case roomJoinedAt roomId of
               Some joined \<Rightarrow> js_lt (parseInt (origin_server_ts ev)) (Num joined)
             | None \<Rightarrow> False) \<and>
         normalizeEvent env startTime roomJoinedAt roomId ev w =
           normalizeEvent env startTime' roomJoinedAt' roomId ev w \<and>
         (content ev = Some c \<and> msgtype c = Some ''m.text'' \<and> Content.body c = Some b \<and>
          b \<noteq> [] \<and> replyBody (relates_to c) b = Inr b1 \<and>
          getUserId env w = (Resolved me, w1) \<and> Event.sender ev \<noteq> me \<and>
          0 < length (trim b1) \<longrightarrow>
            normalizeEvent env startTime roomJoinedAt roomId ev w =
              ([GetUserId],
               Resolved (Some \<lparr>Message.body = trim b1, sender = Event.sender ev,
                                room = roomId, event = ev\<rparr>), w1) \<and>
            handleCommand env config startTime roomJoinedAt roomId ev w =
              after [GetUserId]
                (dispatch env (extra config) roomId
                   \<lparr>Message.body = trim b1, sender = Event.sender ev,
                    room = roomId, event = ev\<rparr> (handlers config) w1))"
proof -
  have a: "\<not> js_lt (parseInt (origin_server_ts ev)) (Num startTime)"
    using nan by simp
  have b: "\<not> (case roomJoinedAt roomId of
               Some joined \<Rightarrow> js_lt (parseInt (origin_server_ts ev)) (Num joined)
             | None \<Rightarrow> False)"
    using nan by (simp split: option.splits)
  have c: "normalizeEvent env startTime roomJoinedAt roomId ev w =
           normalizeEvent env startTime' roomJoinedAt' roomId ev w"
    using nan by (simp add: normalizeEvent_def Let_def split: option.splits)
  have d: "normalizeEvent env startTime roomJoinedAt roomId ev w =
              ([GetUserId],
               Resolved (Some \<lparr>Message.body = trim b1, sender = Event.sender ev,
                                room = roomId, event = ev\<rparr>), w1)"
    if "content ev = Some c" "msgtype c = Some ''m.text''" "Content.body c = Some b"
      "b \<noteq> []" "replyBody (relates_to c) b = Inr b1"
      "getUserId env w = (Resolved me, w1)" "Event.sender ev \<noteq> me" "0 < length (trim b1)"
    using nan that by (simp add: normalizeEvent_def Let_def split: option.splits)
  from a b c d parseIntString_undefined show ?thesis
    by (auto simp: handleCommand_def)
qed

theorem nan_timestamp_passes_time_filters_witness:
  "parseInt (origin_server_ts (eventAt TsUndefined)) = NaN \<and>
   parseInt (origin_server_ts (eventAt (TsString ''yesterday''))) = NaN \<and>
   normalizeEvent storeEnv 1000 [''!lobby'' \<mapsto> 3000] ''!lobby'' (eventAt TsUndefined) []
     = ([GetUserId],
        Resolved (Some \<lparr>Message.body = ''!help'', sender = ''@alice:example.org'',
                         room = ''!lobby'', event = eventAt TsUndefined\<rparr>), []) \<and>
   handleCommand storeEnv sampleConfig 1000 [''!lobby'' \<mapsto> 3000] ''!lobby''
       (eventAt TsUndefined) []
     = ([GetUserId,
         HandlerCall ''admin''
           \<lparr>Message.body = ''!help'', sender = ''@alice:example.org'', room = ''!lobby'',
            event = eventAt TsUndefined\<rparr> sampleExtra,
         IsModuleEnabled ''!lobby'' ''alpha'',
         HandlerCall ''alpha''
           \<lparr>Message.body = ''!help'', sender = ''@alice:example.org'', room = ''!lobby'',
            event = eventAt TsUndefined\<rparr> sampleExtra],
        Resolved (), [])"
proof -
  let ?ev = "eventAt TsUndefined"
  let ?c = "\<lparr>msgtype = Some ''m.text'', Content.body = Some ''!help'',
             relates_to = RelUndefined\<rparr>"
  have nan: "parseInt (origin_server_ts ?ev) = NaN"
    by (simp add: eventAt_def parseIntString_undefined)
  have nan2: "parseInt (origin_server_ts (eventAt (TsString ''yesterday''))) = NaN"
    by (simp add: eventAt_def parseIntString_def isWhiteSpace_def startsWith_def
        isDigitIn_def digitValue_def)
  have later: "content ?ev = Some ?c \<and> msgtype ?c = Some ''m.text'' \<and>
      Content.body ?c = Some ''!help'' \<and> ''!help'' \<noteq> [] \<and>
      replyBody (relates_to ?c) ''!help'' = Inr ''!help'' \<and>
      getUserId storeEnv [] = (Resolved ''@bot:example.org'', []) \<and>
      Event.sender ?ev \<noteq> ''@bot:example.org'' \<and> 0 < length (trim ''!help'')"
    by (simp add: eventAt_def sampleEvent_def storeEnv_def trim_def isWhiteSpace_def)
  have tr: "trim ''!help'' = ''!help''"
    by (simp add: trim_def isWhiteSpace_def)
  have disp: "dispatch storeEnv sampleExtra ''!lobby''
       \<lparr>Message.body = ''!help'', sender = ''@alice:example.org'', room = ''!lobby'',
            event = ?ev\<rparr> [passing ''admin'', passing ''alpha''] []
     = ([HandlerCall ''admin''
           \<lparr>Message.body = ''!help'', sender = ''@alice:example.org'', room = ''!lobby'',
            event = ?ev\<rparr> sampleExtra,
         IsModuleEnabled ''!lobby'' ''alpha'',
         HandlerCall ''alpha''
           \<lparr>Message.body = ''!help'', sender = ''@alice:example.org'', room = ''!lobby'',
            event = ?ev\<rparr> sampleExtra],
        Resolved (), [])"
    by (simp add: sample_defs run_defs)
  have snd: "Event.sender ?ev = ''@alice:example.org''"
    by (simp add: eventAt_def sampleEvent_def)
  note inst = nan_timestamp_passes_time_filters [OF nan, of 1000 "[''!lobby'' \<mapsto> 3000]"
      "''!lobby''" storeEnv "[]" 1000 "[''!lobby'' \<mapsto> 3000]" ?c "''!help''" "''!help''"
      "''@bot:example.org''" "[]" sampleConfig]
  from inst later have
    "normalizeEvent storeEnv 1000 [''!lobby'' \<mapsto> 3000] ''!lobby'' ?ev [] =
       ([GetUserId],
        Resolved (Some \<lparr>Message.body = trim ''!help'', sender = Event.sender ?ev,
                         room = ''!lobby'', event = ?ev\<rparr>), [])"
    and "handleCommand storeEnv sampleConfig 1000 [''!lobby'' \<mapsto> 3000] ''!lobby'' ?ev [] =
       after [GetUserId]
         (dispatch storeEnv (extra sampleConfig) ''!lobby''
            \<lparr>Message.body = trim ''!help'', sender = Event.sender ?ev,
             room = ''!lobby'', event = ?ev\<rparr> (handlers sampleConfig) [])"
    by blast+
  with nan nan2 tr snd disp show ?thesis
    by (simp add: sampleConfig_def after_triple)
qed

section \<open>Reply stripping\<close>

lemma quoted_after_shift:
  "(case shiftQuoted ls of [] \<Rightarrow> True | l # rest \<Rightarrow> \<not> quotedOrBlank l)"
  by (induction ls) (simp_all add: quotedOrBlank_def trim_empty_iff)

text \<open>
  Claim C6. The reply step of the source is the step of the specification: it removes
  the leading run of lines that are quoted or blank, stops at the first line that is
  neither, and joins the rest with line feeds. For an event that passes the other stages,
  with the body \<^verbatim>\<open>"> a\n> b\n\nhello"\<close> and a reply marker, the body of the message is
  \<^verbatim>\<open>"hello"\<close>.
\<close>

theorem reply_quote_stripped:
  "stripReply b = stripReply_spec b \<and>
   split_nl b = takeWhile quotedOrBlank (split_nl b) @ shiftQuoted (split_nl b) \<and>
   (case shiftQuoted (split_nl b) of [] \<Rightarrow> True | l # rest \<Rightarrow> \<not> quotedOrBlank l) \<and>
   replyBody (RelValue True) b = Inr (join_nl (dropWhile quotedOrBlank (split_nl b))) \<and>
   (content ev = Some c \<and> msgtype c = Some ''m.text'' \<and>
    Content.body c = Some ''> a\<newline>> b\<newline>\<newline>hello'' \<and>
    relates_to c = RelValue True \<and>
    \<not> js_lt (parseInt (origin_server_ts ev)) (Num startTime) \<and>
    \<not> (case roomJoinedAt roomId of
          Some joined \<Rightarrow> js_lt (parseInt (origin_server_ts ev)) (Num joined)
        | None \<Rightarrow> False) \<and>
    getUserId env w = (Resolved me, w1) \<and> Event.sender ev \<noteq> me \<longrightarrow>
      normalizeEvent env startTime roomJoinedAt roomId ev w =
        ([GetUserId],
         Resolved (Some \<lparr>Message.body = ''hello'', sender = Event.sender ev,
                          room = roomId, event = ev\<rparr>), w1))"
proof -
  have a: "stripReply b = stripReply_spec b"
    by (simp add: stripReply_def stripReply_spec_def shiftQuoted_dropWhile)
  have b: "split_nl b = takeWhile quotedOrBlank (split_nl b) @ shiftQuoted (split_nl b)"
    by (simp add: shiftQuoted_dropWhile)
  have c: "replyBody (RelValue True) b = Inr (join_nl (dropWhile quotedOrBlank (split_nl b)))"
    using a by (simp add: stripReply_spec_def)
  have hello: "stripReply ''> a\<newline>> b\<newline>\<newline>hello'' = ''hello''"
    by (simp add: stripReply_def startsWith_def trim_def isWhiteSpace_def)
  have tr: "trim ''hello'' = ''hello''"
    by (simp add: trim_def isWhiteSpace_def)
  have d: "normalizeEvent env startTime roomJoinedAt roomId ev w =
        ([GetUserId],
         Resolved (Some \<lparr>Message.body = ''hello'', sender = Event.sender ev,
                          room = roomId, event = ev\<rparr>), w1)"
    if "content ev = Some c" "msgtype c = Some ''m.text''"
      "Content.body c = Some ''> a\<newline>> b\<newline>\<newline>hello''"
      "relates_to c = RelValue True"
      "\<not> js_lt (parseInt (origin_server_ts ev)) (Num startTime)"
      "\<not> (case roomJoinedAt roomId of
          Some joined \<Rightarrow> js_lt (parseInt (origin_server_ts ev)) (Num joined)
        | None \<Rightarrow> False)"
      "getUserId env w = (Resolved me, w1)" "Event.sender ev \<noteq> me"
    using that by (simp add: normalizeEvent_def Let_def hello tr)
  from a b c d quoted_after_shift [of "split_nl b"] show ?thesis by blast
qed

theorem reply_quote_stripped_witness:
  "stripReply ''> a\<newline>> b\<newline>\<newline>hello'' = ''hello'' \<and>
   split_nl ''> a\<newline>> b\<newline>\<newline>hello'' = [''> a'', ''> b'', '''', ''hello''] \<and>
   normalizeEvent storeEnv 1000 [''!lobby'' \<mapsto> 1500] ''!lobby'' replyEvent []
     = ([GetUserId],
        Resolved (Some \<lparr>Message.body = ''hello'', sender = ''@alice:example.org'',
                         room = ''!lobby'', event = replyEvent\<rparr>), [])"
proof -
  let ?c = "\<lparr>msgtype = Some ''m.text'',
             Content.body = Some ''> a\<newline>> b\<newline>\<newline>hello'',
             relates_to = RelValue True\<rparr>"
  note inst = reply_quote_stripped [of "''> a\<newline>> b\<newline>\<newline>hello''" replyEvent ?c
      1000 "[''!lobby'' \<mapsto> 1500]" "''!lobby''" storeEnv "[]" "''@bot:example.org''" "[]"]
  have pre: "content replyEvent = Some ?c \<and> msgtype ?c = Some ''m.text'' \<and>
    Content.body ?c = Some ''> a\<newline>> b\<newline>\<newline>hello'' \<and>
    relates_to ?c = RelValue True \<and>
    \<not> js_lt (parseInt (origin_server_ts replyEvent)) (Num 1000) \<and>
    \<not> (case [''!lobby'' \<mapsto> 1500] ''!lobby'' of
          Some joined \<Rightarrow> js_lt (parseInt (origin_server_ts replyEvent)) (Num joined)
        | None \<Rightarrow> False) \<and>
    getUserId storeEnv [] = (Resolved ''@bot:example.org'', []) \<and>
    Event.sender replyEvent \<noteq> ''@bot:example.org''"
    by (simp add: replyEvent_def storeEnv_def parseIntNumber_safe)
  have sp: "split_nl ''> a\<newline>> b\<newline>\<newline>hello'' = [''> a'', ''> b'', '''', ''hello'']"
    by simp
  have dw: "join_nl (dropWhile quotedOrBlank [''> a'', ''> b'', '''', ''hello'']) = ''hello''"
    by (simp add: quotedOrBlank_def startsWith_def isWhiteSpace_def)
  have one: "stripReply ''> a\<newline>> b\<newline>\<newline>hello'' = ''hello''"
    using inst [THEN conjunct1] dw by (simp add: stripReply_spec_def)
  have snd: "Event.sender replyEvent = ''@alice:example.org''"
    by (simp add: replyEvent_def)
  from inst pre have "normalizeEvent storeEnv 1000 [''!lobby'' \<mapsto> 1500] ''!lobby'' replyEvent []
     = ([GetUserId],
        Resolved (Some \<lparr>Message.body = ''hello'', sender = Event.sender replyEvent,
                         room = ''!lobby'', event = replyEvent\<rparr>), [])"
    by blast
  with one sp snd show ?thesis by simp
qed

text \<open>
  Claim C7. A body whose first line neither starts with the quote marker nor is blank is
  returned unchanged by the reply step, and the step applied twice is the step applied
  once.
\<close>

theorem stripReply_idempotent:
  "(split_nl b = l # ls \<and> \<not> startsWith l ''> '' \<and> \<not> list_all isWhiteSpace l
      \<longrightarrow> stripReply b = b) \<and>
   stripReply (stripReply b) = stripReply b"
proof -
  have "stripReply b = b"
    if "split_nl b = l # ls" "\<not> startsWith l ''> ''" "\<not> list_all isWhiteSpace l"
  proof -
    have "shiftQuoted (split_nl b) = split_nl b"
      using that by (simp add: trim_empty_iff)
    then show ?thesis by (simp add: stripReply_def join_split_nl)
  qed
  with stripReply_idem [of b] show ?thesis by blast
qed

theorem stripReply_idempotent_witness:
  "split_nl ''hello\<newline>> b\<newline>\<newline>x'' = [''hello'', ''> b'', '''', ''x''] \<and>
   stripReply ''hello\<newline>> b\<newline>\<newline>x'' = ''hello\<newline>> b\<newline>\<newline>x'' \<and>
   stripReply (stripReply ''> a\<newline>\<newline>hello\<newline>> b'') = ''hello\<newline>> b''"
proof -
  have sp: "split_nl ''hello\<newline>> b\<newline>\<newline>x'' = [''hello'', ''> b'', '''', ''x'']"
    by simp
  have nq: "\<not> startsWith ''hello'' ''> '' \<and> \<not> list_all isWhiteSpace ''hello''"
    by (simp add: startsWith_def isWhiteSpace_def)
  have once: "stripReply ''> a\<newline>\<newline>hello\<newline>> b'' = ''hello\<newline>> b''"
    by (simp add: stripReply_def startsWith_def trim_def isWhiteSpace_def)
  from sp nq once
    stripReply_idempotent [of "''hello\<newline>> b\<newline>\<newline>x''" "''hello''" "[''> b'', '''', ''x'']"]
    stripReply_idempotent [of "''> a\<newline>\<newline>hello\<newline>> b''" "[]" "[]"]
  show ?thesis by simp
qed

section \<open>Shutdown\<close>

lemma CLIENT_suspend: "CLIENT (suspend k a new p) = CLIENT p"
  by (simp add: suspend_def)

lemma tasks_suspend: "length (tasks (suspend k a new p)) = length (tasks p)"
  by (simp add: suspend_def)

lemma CLIENT_resume: "CLIENT (resume k r p) = CLIENT p"
  by (simp add: resume_def CLIENT_suspend Let_def
      split: await_point.splits settlement.splits)

lemma tasks_resume: "length (tasks (resume k r p)) = length (tasks p)"
  by (simp add: resume_def tasks_suspend Let_def
      split: await_point.splits settlement.splits)

lemma exitHandler_noop: "CLIENT p = None \<Longrightarrow> exitHandler p = p"
  by (simp add: exitHandler_def)

lemma exitHandler_clears: "CLIENT (exitHandler p) = None"
  by (simp add: exitHandler_def split: option.splits)

lemma step_idle: "CLIENT p = None \<Longrightarrow> CLIENT (step i p) = None"
  by (cases i) (simp_all add: step_def exitHandler_noop CLIENT_resume)

lemma step_idle_tasks: "CLIENT p = None \<Longrightarrow> length (tasks (step i p)) = length (tasks p)"
  by (cases i) (simp_all add: step_def exitHandler_noop tasks_resume)

lemma run_idle:
  "CLIENT p = None \<Longrightarrow>
     CLIENT (run ins p) = None \<and> length (tasks (run ins p)) = length (tasks p)"
proof (induction ins arbitrary: p)
  case Nil
  then show ?case by simp
next
  case (Cons i ins)
  from Cons.prems have "CLIENT (step i p) = None" by (rule step_idle)
  from Cons.IH [OF this] Cons.prems show ?case by (simp add: step_idle_tasks)
qed

text \<open>
  Claim C8. With no active client \<^verbatim>\<open>exitHandler\<close> does nothing. Otherwise its first
  stretch clears \<^verbatim>\<open>CLIENT\<close> before it suspends at its first \<^verbatim>\<open>await\<close>. After
  that, whatever signals arrive and however the awaited promises settle, \<^verbatim>\<open>CLIENT\<close>
  stays cleared, and a further invocation leaves the process as it found it: no operation
  on the transport, no exit, no new invocation under way.
\<close>

theorem exitHandler_reentrant:
  "(CLIENT p = None \<longrightarrow> exitHandler p = p) \<and>
   (CLIENT p = Some c \<longrightarrow>
      CLIENT (exitHandler p) = None \<and>
      ops (exitHandler p) =
        ops p @ [ConsoleLog ''setting bot presence to offline...'', Stop c, Wait 1000] \<and>
      tasks (exitHandler p) = tasks p @ [\<lparr>client = c, at = AwaitWait1000\<rparr>]) \<and>
   CLIENT (run ins (exitHandler p)) = None \<and>
   exitHandler (run ins (exitHandler p)) = run ins (exitHandler p) \<and>
   step Signal (run ins (exitHandler p)) = run ins (exitHandler p) \<and>
   length (tasks (run ins (exitHandler p))) = length (tasks (exitHandler p))"
proof -
  have idle: "CLIENT (run ins (exitHandler p)) = None"
    and count: "length (tasks (run ins (exitHandler p))) = length (tasks (exitHandler p))"
    using run_idle [OF exitHandler_clears, of ins p] by simp_all
  have again: "exitHandler (run ins (exitHandler p)) = run ins (exitHandler p)"
    using idle by (rule exitHandler_noop)
  then have sig: "step Signal (run ins (exitHandler p)) = run ins (exitHandler p)"
    by (simp add: step_def)
  have first: "CLIENT p = Some c \<longrightarrow>
      CLIENT (exitHandler p) = None \<and>
      ops (exitHandler p) =
        ops p @ [ConsoleLog ''setting bot presence to offline...'', Stop c, Wait 1000] \<and>
      tasks (exitHandler p) = tasks p @ [\<lparr>client = c, at = AwaitWait1000\<rparr>]"
    by (simp add: exitHandler_def)
  from idle count again sig first exitHandler_noop [of p] show ?thesis by blast
qed


theorem exitHandler_reentrant_witness:
  "exitHandler idleProcess = idleProcess \<and>
   CLIENT (exitHandler runningProcess) = None \<and>
   ops (exitHandler runningProcess) =
     [ConsoleLog ''setting bot presence to offline...'', Stop 7, Wait 1000] \<and>
   tasks (exitHandler runningProcess) = [\<lparr>client = 7, at = AwaitWait1000\<rparr>] \<and>
   step Signal (run [Signal, Settle 0 (Fulfilled []), Signal, Settle 0 (Fulfilled []),
                     Signal, Settle 0 (Fulfilled ''online''), Signal]
                  (exitHandler runningProcess)) =
     \<lparr>CLIENT = None, tasks = [\<lparr>client = 7, at = AwaitWait11000\<rparr>],
      ops = [ConsoleLog ''setting bot presence to offline...'', Stop 7, Wait 1000,
             SetPresenceStatus 7 ''offline'' ''bot exited'', GetPresenceStatus 7,
             ConsoleLog ''waiting, status is online'', Wait 11000],
      exited = False\<rparr>"
proof -
  let ?ins = "[Signal, Settle 0 (Fulfilled []), Signal, Settle 0 (Fulfilled []),
               Signal, Settle 0 (Fulfilled ''online''), Signal]"
  have none: "CLIENT idleProcess = None"
    by (simp add: idleProcess_def)
  have idle: "exitHandler idleProcess = idleProcess"
    using exitHandler_reentrant [of idleProcess 7 "[]"] none by blast
  have some: "CLIENT runningProcess = Some 7"
    by (simp add: runningProcess_def)
  have "CLIENT (exitHandler runningProcess) = None \<and>
      ops (exitHandler runningProcess) =
        ops runningProcess @
          [ConsoleLog ''setting bot presence to offline...'', Stop 7, Wait 1000] \<and>
      tasks (exitHandler runningProcess) =
        tasks runningProcess @ [\<lparr>client = 7, at = AwaitWait1000\<rparr>]"
    using exitHandler_reentrant [of runningProcess 7 "[]"] some by blast
  then have first: "CLIENT (exitHandler runningProcess) = None \<and>
      ops (exitHandler runningProcess) =
        [ConsoleLog ''setting bot presence to offline...'', Stop 7, Wait 1000] \<and>
      tasks (exitHandler runningProcess) = [\<lparr>client = 7, at = AwaitWait1000\<rparr>]"
    by (simp add: runningProcess_def)
  have ran: "run ?ins (exitHandler runningProcess) =
     \<lparr>CLIENT = None, tasks = [\<lparr>client = 7, at = AwaitWait11000\<rparr>],
      ops = [ConsoleLog ''setting bot presence to offline...'', Stop 7, Wait 1000,
             SetPresenceStatus 7 ''offline'' ''bot exited'', GetPresenceStatus 7,
             ConsoleLog ''waiting, status is online'', Wait 11000],
      exited = False\<rparr>"
    by code_simp
  have again: "step Signal (run ?ins (exitHandler runningProcess)) =
      run ?ins (exitHandler runningProcess)"
    using exitHandler_reentrant [of runningProcess 7 ?ins] by blast
  from again ran have last: "step Signal (run ?ins (exitHandler runningProcess)) =
     \<lparr>CLIENT = None, tasks = [\<lparr>client = 7, at = AwaitWait11000\<rparr>],
      ops = [ConsoleLog ''setting bot presence to offline...'', Stop 7, Wait 1000,
             SetPresenceStatus 7 ''offline'' ''bot exited'', GetPresenceStatus 7,
             ConsoleLog ''waiting, status is online'', Wait 11000],
      exited = False\<rparr>"
    by (simp only:)
  from idle first last show ?thesis by (intro conjI) simp_all
qed

end
